theory Spec2Isabelle
  imports Main "HOL-Library.Sublist"
begin

section \<open>Strings\<close>

text \<open>
  Python \<open>str\<close> values are modelled as \<open>string\<close> (lists of 8-bit characters), so the
  string methods below are the ASCII part of the Python ones: case mapping touches the
  letters a-z and A-Z only, and the whitespace and line-break sets are those below
  code point 128.
\<close>

definition ascii_lowercase :: string where
  "ascii_lowercase = ''abcdefghijklmnopqrstuvwxyz''"

definition ascii_uppercase :: string where
  "ascii_uppercase = ''ABCDEFGHIJKLMNOPQRSTUVWXYZ''"

definition upper_char :: "char \<Rightarrow> char" where
  "upper_char c = (case map_of (zip ascii_lowercase ascii_uppercase) c of
                     Some u \<Rightarrow> u | None \<Rightarrow> c)"

definition lower_char :: "char \<Rightarrow> char" where
  "lower_char c = (case map_of (zip ascii_uppercase ascii_lowercase) c of
                     Some l \<Rightarrow> l | None \<Rightarrow> c)"

text \<open>\<^verbatim>\<open>s.upper()\<close> and \<^verbatim>\<open>s.lower()\<close>.\<close>

definition str_upper :: "string \<Rightarrow> string" where
  "str_upper s = map upper_char s"

definition str_lower :: "string \<Rightarrow> string" where
  "str_lower s = map lower_char s"

text \<open>\<^verbatim>\<open>s.replace(c, "")\<close> for a one-character \<open>c\<close>: every occurrence is dropped.\<close>

definition str_delete :: "char \<Rightarrow> string \<Rightarrow> string" where
  "str_delete c s = filter (\<lambda>x. x \<noteq> c) s"

text \<open>\<^verbatim>\<open>sub in s\<close>: \<open>sub\<close> occurs as a contiguous piece of \<open>s\<close>.\<close>

fun str_contains :: "string \<Rightarrow> string \<Rightarrow> bool" where
  "str_contains sub [] = (sub = [])"
| "str_contains sub (c # cs) = (prefix sub (c # cs) \<or> str_contains sub cs)"

text \<open>The characters for which \<^verbatim>\<open>str.isspace\<close> holds, below code point 128.\<close>

definition is_space :: "char \<Rightarrow> bool" where
  "is_space c = (c \<in> set [CHR '' '', CHR 0x09, CHR 0x0A, CHR 0x0B, CHR 0x0C, CHR 0x0D,
                          CHR 0x1C, CHR 0x1D, CHR 0x1E, CHR 0x1F])"

text \<open>\<^verbatim>\<open>s.split()\<close>: the maximal runs of non-whitespace characters, in order.\<close>

fun split_acc :: "string \<Rightarrow> string \<Rightarrow> string list" where
  "split_acc cur [] = (if cur = [] then [] else [cur])"
| "split_acc cur (c # cs) =
     (if is_space c then (if cur = [] then split_acc [] cs else cur # split_acc [] cs)
      else split_acc (cur @ [c]) cs)"

definition str_split :: "string \<Rightarrow> string list" where
  "str_split s = split_acc [] s"

text \<open>\<^verbatim>\<open>s.strip()\<close>: whitespace removed at both ends.\<close>

definition str_strip :: "string \<Rightarrow> string" where
  "str_strip s = rev (dropWhile is_space (rev (dropWhile is_space s)))"

text \<open>
  \<^verbatim>\<open>s.splitlines()\<close>: the lines of \<open>s\<close> without their terminators; \<^verbatim>\<open>\r\n\<close> is one
  terminator, and a final terminator opens no empty last line.
\<close>

definition is_linebreak :: "char \<Rightarrow> bool" where
  "is_linebreak c = (c \<in> set [CHR 0x0A, CHR 0x0B, CHR 0x0C, CHR 0x0D, CHR 0x1C, CHR 0x1D, CHR 0x1E])"

fun splitlines_acc :: "string \<Rightarrow> string \<Rightarrow> string list" where
  "splitlines_acc cur [] = (if cur = [] then [] else [cur])"
| "splitlines_acc cur [c] = (if is_linebreak c then [cur] else [cur @ [c]])"
| "splitlines_acc cur (c # d # cs) =
     (if c = CHR 0x0D \<and> d = CHR 0x0A then cur # splitlines_acc [] cs
      else if is_linebreak c then cur # splitlines_acc [] (d # cs)
      else splitlines_acc (cur @ [c]) (d # cs))"

definition str_splitlines :: "string \<Rightarrow> string list" where
  "str_splitlines s = splitlines_acc [] s"

section \<open>Vendor table\<close>

text \<open>The values \<^verbatim>\<open>json.load\<close> can return; an object is the list of its items in order.\<close>

datatype json =
    JNull
  | JBool bool
  | JNum int
  | JStr string
  | JArr "json list"
  | JObj "(string \<times> json) list"

datatype exn =
    OSError
  | PermissionError
  | FileNotFoundError
  | TimeoutError
  | GaiError
  | HError
  | CalledProcessError
  | UnicodeDecodeError
  | JSONDecodeError
  | AttributeError
  | IndexError
  | StopIteration
  | ValueError

text \<open>\<^verbatim>\<open>OUI_FALLBACK\<close>, the built-in table, as the dictionary it denotes.\<close>

definition OUI_FALLBACK_items :: "(string \<times> json) list" where
  "OUI_FALLBACK_items =
     [(''0001C0'', JStr ''Hewlett-Packard''),
      (''0003F8'', JStr ''Hewlett-Packard''),
      (''00085D'', JStr ''Dell''),
      (''001A2B'', JStr ''Dfell''),
      (''F0D5BF'', JStr ''Dell''),
      (''00265E'', JStr ''Lenovo''),
      (''EC8EAD'', JStr ''Lenovo''),
      (''3C5A37'', JStr ''ASUSTek''),
      (''B4A9FC'', JStr ''ASUSTek''),
      (''84A134'', JStr ''Samsung''),
      (''F8E61A'', JStr ''Samsung''),
      (''B827EB'', JStr ''Raspberry Pi''),
      (''D85D4C'', JStr ''Xiaomi''),
      (''A4B197'', JStr ''Apple''),
      (''F0D1A9'', JStr ''Apple''),
      (''BC929B'', JStr ''OnePlus''),
      (''18C04D'', JStr ''HP Inc.''),
      (''A0A36E'', JStr ''Realtek'')]"

definition OUI_FALLBACK :: "string \<rightharpoonup> json" where
  "OUI_FALLBACK = map_of OUI_FALLBACK_items"

text \<open>
  The expression \<^verbatim>\<open>s.upper().replace(":", "").replace("-", "")[:6]\<close>, which
  \<^verbatim>\<open>load_oui_map\<close> applies to every key of the file and \<^verbatim>\<open>vendor_from_mac\<close> to
  the hardware address.
\<close>

definition oui_prefix :: "string \<Rightarrow> string" where
  "oui_prefix s = take 6 (str_delete (CHR ''-'') (str_delete (CHR '':'') (str_upper s)))"

text \<open>
  What \<^verbatim>\<open>load_oui_map\<close> finds on disk: \<open>None\<close> when \<^verbatim>\<open>os.path.isfile\<close> is false,
  \<open>Some (Inl e)\<close> when \<^verbatim>\<open>open\<close> or \<^verbatim>\<open>json.load\<close> raises \<open>e\<close>, and
  \<open>Some (Inr j)\<close> when the file parses to \<open>j\<close>.
\<close>

type_synonym oui_file = "(exn + json) option"

text \<open>
  \<^verbatim>\<open>data.items()\<close> exists for an object only; on any other value it raises
  \<^verbatim>\<open>AttributeError\<close> before the loop has stored anything.
\<close>

fun json_items :: "json \<Rightarrow> exn + (string \<times> json) list" where
  "json_items (JObj kvs) = Inr kvs"
| "json_items _ = Inl AttributeError"

definition oui_store :: "(string \<rightharpoonup> json) \<Rightarrow> string \<times> json \<Rightarrow> (string \<rightharpoonup> json)" where
  "oui_store m kv = m(oui_prefix (fst kv) \<mapsto> snd kv)"

definition load_oui_map :: "oui_file \<Rightarrow> (string \<rightharpoonup> json)" where
  "load_oui_map file =
     (case file of
        None \<Rightarrow> OUI_FALLBACK
      | Some (Inl e) \<Rightarrow> OUI_FALLBACK
      | Some (Inr data) \<Rightarrow>
          (case json_items data of
             Inl e \<Rightarrow> OUI_FALLBACK
           | Inr kvs \<Rightarrow> foldl oui_store OUI_FALLBACK kvs))"

text \<open>
  \<^verbatim>\<open>vendor_from_mac\<close>, with the module-level \<^verbatim>\<open>OUI_MAP\<close> as its first argument.
  The address is \<open>None\<close> for Python's \<^verbatim>\<open>None\<close>; \<^verbatim>\<open>not mac\<close> holds for \<^verbatim>\<open>None\<close> and
  for the empty string.
\<close>

definition vendor_from_mac :: "(string \<rightharpoonup> json) \<Rightarrow> string option \<Rightarrow> json" where
  "vendor_from_mac oui_map mac =
     (case mac of
        None \<Rightarrow> JStr ''-''
      | Some m \<Rightarrow>
          if m = [] then JStr ''-''
          else (case oui_map (oui_prefix m) of
                  None \<Rightarrow> JStr ''Unknown''
                | Some v \<Rightarrow> v))"

section \<open>Operating system and process state\<close>

text \<open>
  Everything the scanner learns comes from outside the program: the socket layer, the
  file \<^verbatim>\<open>/proc/net/arp\<close>, the \<^verbatim>\<open>ping\<close> and \<^verbatim>\<open>nmblookup\<close> programs and the
  resolver. They are a parameter: a record of operations on a world \<open>'w\<close>, each giving
  its answer and the world after the call. An answer \<open>Inl e\<close> (or \<open>Some e\<close> for an
  operation without a value) is the exception \<open>e\<close> raised by the call. The exceptions
  are those derived from \<^verbatim>\<open>Exception\<close>; interrupts are not modelled.
\<close>

datatype sock_type = SOCK_STREAM | SOCK_DGRAM

record 'w os =
  os_socket :: "sock_type \<Rightarrow> 'w \<Rightarrow> (exn + nat) \<times> 'w"
  os_sendto :: "nat \<Rightarrow> string \<Rightarrow> nat \<Rightarrow> 'w \<Rightarrow> exn option \<times> 'w"
  os_connect_ex :: "nat \<Rightarrow> string \<Rightarrow> nat \<Rightarrow> 'w \<Rightarrow> (exn + int) \<times> 'w"
  os_close :: "nat \<Rightarrow> 'w \<Rightarrow> exn option \<times> 'w"
  os_read_arp :: "'w \<Rightarrow> (exn + string list) \<times> 'w"
  os_ping :: "string \<Rightarrow> 'w \<Rightarrow> (exn + int) \<times> 'w"
  os_nmblookup :: "string \<Rightarrow> 'w \<Rightarrow> (exn + string) \<times> 'w"
  os_gethostbyaddr :: "string \<Rightarrow> 'w \<Rightarrow> (exn + string) \<times> 'w"

text \<open>
  The probes of \<^verbatim>\<open>is_alive\<close> and what each one reported. The process state carries
  the world, the descriptors of the sockets the process has created and on which
  \<^verbatim>\<open>close\<close> has not been called (what the runtime's finalizer releases on its own
  is not part of the model), and an observation log to which every probe appends its
  own entry when it finishes.
\<close>

datatype probe =
    Nudge string
  | Neighbor string
  | Icmp string
  | Tcp string nat
  | Netbios string

datatype verdict = NoVerdict | Negative | Positive | Raised exn

record 'w proc =
  world :: 'w
  open_socks :: "nat list"
  probes :: "(probe \<times> verdict) list"

definition log_probe :: "probe \<Rightarrow> verdict \<Rightarrow> 'w proc \<Rightarrow> 'w proc" where
  "log_probe p v s = s\<lparr>probes := probes s @ [(p, v)]\<rparr>"

definition verdict_of_bool :: "bool \<Rightarrow> verdict" where
  "verdict_of_bool b = (if b then Positive else Negative)"

text \<open>\<^verbatim>\<open>socket.socket(AF_INET, ty)\<close> and \<^verbatim>\<open>s.close()\<close>.\<close>

definition socket_new :: "'w os \<Rightarrow> sock_type \<Rightarrow> 'w proc \<Rightarrow> (exn + nat) \<times> 'w proc" where
  "socket_new os ty s =
     (case os_socket os ty (world s) of
        (Inl e, w) \<Rightarrow> (Inl e, s\<lparr>world := w\<rparr>)
      | (Inr fd, w) \<Rightarrow> (Inr fd, s\<lparr>world := w, open_socks := fd # open_socks s\<rparr>))"

text \<open>
  Closing releases the descriptor whether or not the call reports an error.
\<close>

definition socket_close :: "'w os \<Rightarrow> nat \<Rightarrow> 'w proc \<Rightarrow> exn option \<times> 'w proc" where
  "socket_close os fd s =
     (case os_close os fd (world s) of
        (r, w) \<Rightarrow> (r, s\<lparr>world := w, open_socks := remove1 fd (open_socks s)\<rparr>))"

section \<open>Probes\<close>

text \<open>
  \<^verbatim>\<open>udp_nudge\<close>: the whole body is inside \<^verbatim>\<open>try\<close> with a bare \<^verbatim>\<open>except: pass\<close>.
  \<^verbatim>\<open>settimeout\<close> only stores a number in the socket object.
\<close>

definition udp_nudge :: "'w os \<Rightarrow> string \<Rightarrow> nat \<Rightarrow> 'w proc \<Rightarrow> 'w proc" where
  "udp_nudge os ip port s =
     log_probe (Nudge ip) NoVerdict
       (case socket_new os SOCK_DGRAM s of
          (Inl e, s1) \<Rightarrow> s1
        | (Inr fd, s1) \<Rightarrow>
            (case os_sendto os fd ip port (world s1) of
               (Some e, w) \<Rightarrow> s1\<lparr>world := w\<rparr>
             | (None, w) \<Rightarrow> snd (socket_close os fd (s1\<lparr>world := w\<rparr>))))"

text \<open>The body of the loop of \<^verbatim>\<open>read_arp_table\<close> for one line of the file.\<close>

definition arp_store :: "(string \<rightharpoonup> string) \<Rightarrow> string \<Rightarrow> (string \<rightharpoonup> string)" where
  "arp_store table line =
     (let parts = str_split line in
      if 4 \<le> length parts then
        (let ip = parts ! 0; mac = parts ! 3 in
         if mac \<noteq> [] \<and> mac \<noteq> ''00:00:00:00:00:00'' then table(ip \<mapsto> mac) else table)
      else table)"

text \<open>
  \<^verbatim>\<open>read_arp_table\<close>. The world answers with the lines that could be read, or with the
  exception that \<^verbatim>\<open>open\<close> raised. \<^verbatim>\<open>next(f)\<close> skips the header line and raises
  \<^verbatim>\<open>StopIteration\<close> on an empty file; every exception leaves the table as it is.
\<close>

definition read_arp_table :: "'w os \<Rightarrow> 'w proc \<Rightarrow> (string \<rightharpoonup> string) \<times> 'w proc" where
  "read_arp_table os s =
     (case os_read_arp os (world s) of
        (Inl e, w) \<Rightarrow> (Map.empty, s\<lparr>world := w\<rparr>)
      | (Inr file_lines, w) \<Rightarrow>
          (case file_lines of
             [] \<Rightarrow> (Map.empty, s\<lparr>world := w\<rparr>)
           | header # rest \<Rightarrow> (foldl arp_store Map.empty rest, s\<lparr>world := w\<rparr>)))"

text \<open>Python's truth value of the result of \<^verbatim>\<open>mac_for_ip\<close>.\<close>

definition truthy :: "string option \<Rightarrow> bool" where
  "truthy m = (case m of None \<Rightarrow> False | Some mac \<Rightarrow> mac \<noteq> [])"

definition mac_for_ip :: "'w os \<Rightarrow> string \<Rightarrow> 'w proc \<Rightarrow> string option \<times> 'w proc" where
  "mac_for_ip os ip s =
     (case read_arp_table os s of
        (table, s1) \<Rightarrow> (table ip, log_probe (Neighbor ip) (verdict_of_bool (truthy (table ip))) s1))"

definition ping :: "'w os \<Rightarrow> string \<Rightarrow> 'w proc \<Rightarrow> bool \<times> 'w proc" where
  "ping os ip s =
     (case os_ping os ip (world s) of
        (Inl e, w) \<Rightarrow> (False, log_probe (Icmp ip) Negative (s\<lparr>world := w\<rparr>))
      | (Inr returncode, w) \<Rightarrow>
          (returncode = 0, log_probe (Icmp ip) (verdict_of_bool (returncode = 0)) (s\<lparr>world := w\<rparr>)))"

text \<open>
  \<^verbatim>\<open>tcp_check\<close>. The socket is created before the \<^verbatim>\<open>try\<close>, so an exception of
  \<^verbatim>\<open>socket.socket\<close> leaves the function. Inside the \<^verbatim>\<open>try\<close> come
  \<^verbatim>\<open>connect_ex\<close>, \<^verbatim>\<open>close\<close> and the \<^verbatim>\<open>return\<close>; the bare \<^verbatim>\<open>except\<close> returns
  \<^verbatim>\<open>False\<close> and nothing else.
\<close>

definition tcp_check :: "'w os \<Rightarrow> string \<Rightarrow> nat \<Rightarrow> 'w proc \<Rightarrow> (exn + bool) \<times> 'w proc" where
  "tcp_check os ip port s =
     (case socket_new os SOCK_STREAM s of
        (Inl e, s1) \<Rightarrow> (Inl e, log_probe (Tcp ip port) (Raised e) s1)
      | (Inr fd, s1) \<Rightarrow>
          (case os_connect_ex os fd ip port (world s1) of
             (Inl e, w) \<Rightarrow> (Inr False, log_probe (Tcp ip port) Negative (s1\<lparr>world := w\<rparr>))
           | (Inr r, w) \<Rightarrow>
               (case socket_close os fd (s1\<lparr>world := w\<rparr>) of
                  (Some e, s2) \<Rightarrow> (Inr False, log_probe (Tcp ip port) Negative s2)
                | (None, s2) \<Rightarrow>
                    (Inr (r = 0), log_probe (Tcp ip port) (verdict_of_bool (r = 0)) s2))))"

definition nmb_has_name :: "'w os \<Rightarrow> string \<Rightarrow> 'w proc \<Rightarrow> bool \<times> 'w proc" where
  "nmb_has_name os ip s =
     (case os_nmblookup os ip (world s) of
        (Inl e, w) \<Rightarrow> (False, log_probe (Netbios ip) Negative (s\<lparr>world := w\<rparr>))
      | (Inr out, w) \<Rightarrow>
          (str_contains ''<00>'' out,
           log_probe (Netbios ip) (verdict_of_bool (str_contains ''<00>'' out)) (s\<lparr>world := w\<rparr>)))"

section \<open>Host name\<close>

text \<open>
  The \<^verbatim>\<open>for\<close> loop of \<^verbatim>\<open>resolve_hostname\<close> over the lines of the answer:
  \<open>Inr (Some name)\<close> when the loop returns \<open>name\<close>, \<open>Inr None\<close> when it runs to its
  end, \<open>Inl IndexError\<close> when \<^verbatim>\<open>L.split()[0]\<close> has no element to take.
\<close>

fun first_name :: "string list \<Rightarrow> exn + string option" where
  "first_name [] = Inr None"
| "first_name (line # rest) =
     (let L = str_strip line in
      if str_contains ''<00>'' L \<and> \<not> str_contains ''group'' (str_lower L) then
        (case str_split L of
           [] \<Rightarrow> Inl IndexError
         | name # _ \<Rightarrow>
             if name \<noteq> [] \<and> name \<noteq> ''name_query'' then Inr (Some name)
             else first_name rest)
      else first_name rest)"

text \<open>
  \<^verbatim>\<open>resolve_hostname\<close>: the first \<^verbatim>\<open>try\<close> returns the primary name of
  \<^verbatim>\<open>gethostbyaddr\<close>; the second runs \<^verbatim>\<open>nmblookup\<close> and the loop, and its bare
  \<^verbatim>\<open>except\<close> falls through to the final \<^verbatim>\<open>return "-"\<close>.
\<close>

definition resolve_hostname :: "'w os \<Rightarrow> string \<Rightarrow> 'w proc \<Rightarrow> (exn + string) \<times> 'w proc" where
  "resolve_hostname os ip s =
     (case os_gethostbyaddr os ip (world s) of
        (Inr hostname, w) \<Rightarrow> (Inr hostname, s\<lparr>world := w\<rparr>)
      | (Inl e, w) \<Rightarrow>
          (case os_nmblookup os ip w of
             (Inl e', w') \<Rightarrow> (Inr ''-'', s\<lparr>world := w'\<rparr>)
           | (Inr out, w') \<Rightarrow>
               (case first_name (str_splitlines out) of
                  Inr (Some name) \<Rightarrow> (Inr name, s\<lparr>world := w'\<rparr>)
                | Inr None \<Rightarrow> (Inr ''-'', s\<lparr>world := w'\<rparr>)
                | Inl e' \<Rightarrow> (Inr ''-'', s\<lparr>world := w'\<rparr>))))"

section \<open>Liveness\<close>

definition PORTS :: "nat list" where
  "PORTS = [21, 22, 23, 25, 53, 80, 110, 135, 139, 143, 443, 445, 3389, 5357, 8080, 8443]"

text \<open>The loop \<^verbatim>\<open>for p in PORTS: if tcp_check(ip, p): return True\<close>.\<close>

fun tcp_any :: "'w os \<Rightarrow> string \<Rightarrow> nat list \<Rightarrow> 'w proc \<Rightarrow> (exn + bool) \<times> 'w proc" where
  "tcp_any os ip [] s = (Inr False, s)"
| "tcp_any os ip (p # ps) s =
     (case tcp_check os ip p s of
        (Inl e, s1) \<Rightarrow> (Inl e, s1)
      | (Inr ok, s1) \<Rightarrow> if ok then (Inr True, s1) else tcp_any os ip ps s1)"

definition is_alive :: "'w os \<Rightarrow> string \<Rightarrow> 'w proc \<Rightarrow> (exn + bool) \<times> 'w proc" where
  "is_alive os ip s =
     (let s1 = udp_nudge os ip 1 s in
      (case mac_for_ip os ip s1 of (m1, s2) \<Rightarrow>
         if truthy m1 then (Inr True, s2)
         else
          (case ping os ip s2 of (pg, s3) \<Rightarrow>
             if pg then (Inr True, s3)
             else
              (case tcp_any os ip PORTS s3 of
                 (Inl e, s4) \<Rightarrow> (Inl e, s4)
               | (Inr ok, s4) \<Rightarrow>
                   if ok then (Inr True, s4)
                   else
                    (case nmb_has_name os ip s4 of (nb, s5) \<Rightarrow>
                       if nb then (Inr True, s5)
                       else
                        (case mac_for_ip os ip s5 of (m2, s6) \<Rightarrow>
                           if truthy m2 then (Inr True, s6)
                           else (Inr False, s6)))))))"

section \<open>Port scan of an alive host\<close>

text \<open>
  Lines 259 to 262 of \<^verbatim>\<open>main\<close>. \<^verbatim>\<open>ex2.map\<close> submits one \<^verbatim>\<open>tcp_check\<close> per port,
  all of which run, and hands their results back in the order of \<^verbatim>\<open>PORTS\<close>; a call
  that raised re-raises when the loop reaches its position. The calls run on pool
  threads; the model runs them in port order, and the outcomes stay arbitrary because
  the operating system is.
\<close>

fun tcp_check_all :: "'w os \<Rightarrow> string \<Rightarrow> nat list \<Rightarrow> 'w proc \<Rightarrow> (exn + bool) list \<times> 'w proc" where
  "tcp_check_all os ip [] s = ([], s)"
| "tcp_check_all os ip (p # ps) s =
     (case tcp_check os ip p s of
        (r, s1) \<Rightarrow> (case tcp_check_all os ip ps s1 of (rs, s2) \<Rightarrow> (r # rs, s2)))"

fun collect_open :: "(nat \<times> (exn + bool)) list \<Rightarrow> nat list \<Rightarrow> exn + nat list" where
  "collect_open [] open_ports = Inr open_ports"
| "collect_open ((port, Inl e) # rest) open_ports = Inl e"
| "collect_open ((port, Inr ok) # rest) open_ports =
     collect_open rest (if ok then open_ports @ [port] else open_ports)"

definition scan_ports :: "'w os \<Rightarrow> string \<Rightarrow> 'w proc \<Rightarrow> (exn + nat list) \<times> 'w proc" where
  "scan_ports os ip s =
     (case tcp_check_all os ip PORTS s of
        (rs, s1) \<Rightarrow> (collect_open (zip PORTS rs) [], s1))"

section \<open>Target network\<close>

text \<open>
  The values of \<^verbatim>\<open>ipaddress.ip_network\<close>: the network address as a number (host bits
  cleared, as \<^verbatim>\<open>strict=False\<close> does) and the prefix length. \<^verbatim>\<open>hosts\<close> follows the
  library: the addresses strictly between the network and the broadcast address for
  IPv4, every address but the first for IPv6, and all addresses of a network of one or
  two addresses.
\<close>

datatype ip_network = IPv4Network nat nat | IPv6Network nat nat

fun hosts :: "ip_network \<Rightarrow> nat list" where
  "hosts (IPv4Network a l) =
     (if l = 31 then [a, a + 1]
      else if l = 32 then [a]
      else [a + 1 ..< a + 2 ^ (32 - l) - 1])"
| "hosts (IPv6Network a l) =
     (if l = 127 then [a, a + 1]
      else if l = 128 then [a]
      else [a + 1 ..< a + 2 ^ (128 - l)])"

definition ipv4 :: "nat \<Rightarrow> nat \<Rightarrow> nat \<Rightarrow> nat \<Rightarrow> nat" where
  "ipv4 a b c d = ((a * 256 + b) * 256 + c) * 256 + d"

definition YELLOW :: string where
  "YELLOW = CHR 0x1B # ''[93m''"

definition RESET :: string where
  "RESET = CHR 0x1B # ''[0m''"

text \<open>
  Lines 242 to 246 of \<^verbatim>\<open>main\<close>, with the library's parser as the parameter
  \<open>parse\<close>: the network to scan and the lines printed. The second call of the parser
  is outside the \<^verbatim>\<open>try\<close>.
\<close>

definition select_network ::
  "(string \<Rightarrow> exn + ip_network) \<Rightarrow> string \<Rightarrow> (exn + ip_network) \<times> string list" where
  "select_network parse network =
     (case parse network of
        Inr net \<Rightarrow> (Inr net, [])
      | Inl e \<Rightarrow>
          (parse ''192.168.1.0/24'',
           [YELLOW @ ''Invalid network, defaulting to 192.168.1.0/24'' @ RESET]))"

section \<open>Notions used by the properties\<close>








text \<open>A log entry that decides nothing: the nudge, or a probe that said no.\<close>

definition quiet :: "verdict \<Rightarrow> bool" where
  "quiet v = (v = NoVerdict \<or> v = Negative)"

text \<open>The ports, in list order, whose check returned \<^verbatim>\<open>True\<close>.\<close>

definition accepted :: "(nat \<times> (exn + bool)) list \<Rightarrow> nat list" where
  "accepted prs = map fst (filter (\<lambda>pr. snd pr = Inr True) prs)"

text \<open>
  An adapter status lists one record per line: the name, its type in angle brackets,
  and flags, among them \<open><GROUP>\<close> on the records of group names. A group record
  is a line that carries this flag; a workstation record is a \<open><00>\<close> line that is
  not a group record. The names a response offers are the first words of its
  workstation records, in order, without the empty word and \<open>name_query\<close>.
\<close>

definition group_record :: "string \<Rightarrow> bool" where
  "group_record L = str_contains ''<GROUP>'' L"

definition workstation_record :: "string \<Rightarrow> bool" where
  "workstation_record L = (str_contains ''<00>'' L \<and> \<not> group_record L)"

definition has_workstation_record :: "string \<Rightarrow> bool" where
  "has_workstation_record out = list_ex workstation_record (str_splitlines out)"

definition usable_name :: "string \<Rightarrow> bool" where
  "usable_name n = (n \<noteq> [] \<and> n \<noteq> ''name_query'')"

definition names_by :: "(string \<Rightarrow> bool) \<Rightarrow> string list \<Rightarrow> string list" where
  "names_by record ls =
     filter usable_name
       (concat (map (\<lambda>L. take 1 (str_split L)) (filter record (map str_strip ls))))"

definition netbios_names :: "string \<Rightarrow> string list" where
  "netbios_names out = names_by workstation_record (str_splitlines out)"

text \<open>
  The test of line 164 of the source, by which \<^verbatim>\<open>resolve_hostname\<close> picks the
  lines it takes a name from: \<open><00>\<close> occurs on the line and \<open>group\<close>, in any
  letter case, occurs nowhere on it.
\<close>

definition line_164 :: "string \<Rightarrow> bool" where
  "line_164 L = (str_contains ''<00>'' L \<and> \<not> str_contains ''group'' (str_lower L))"




section \<open>Sample worlds\<close>

text \<open>
  Concrete operating systems on which the functions can be run. The world is the number
  of calls made so far, which also serves as the next socket descriptor. In the basic
  one nothing answers: the neighbour table holds its header line only, \<^verbatim>\<open>ping\<close>
  exits with 1, every connection is refused (\<open>ECONNREFUSED\<close>, 111), \<^verbatim>\<open>nmblookup\<close>
  exits with an error and the resolver knows no name.
\<close>

definition arp_header :: string where
  "arp_header = ''IP address       HW type     Flags       HW address            Mask     Device''"

definition os_quiet :: "nat os" where
  "os_quiet =
     \<lparr>os_socket = (\<lambda>ty w. (Inr w, Suc w)),
      os_sendto = (\<lambda>fd ip port w. (None, Suc w)),
      os_connect_ex = (\<lambda>fd ip port w. (Inr 111, Suc w)),
      os_close = (\<lambda>fd w. (None, Suc w)),
      os_read_arp = (\<lambda>w. (Inr [arp_header], Suc w)),
      os_ping = (\<lambda>ip w. (Inr 1, Suc w)),
      os_nmblookup = (\<lambda>ip w. (Inl CalledProcessError, Suc w)),
      os_gethostbyaddr = (\<lambda>ip w. (Inl HError, Suc w))\<rparr>"

definition proc0 :: "nat proc" where
  "proc0 = \<lparr>world = 0, open_socks = [], probes = []\<rparr>"

text \<open>The process has no descriptor left: \<^verbatim>\<open>socket.socket\<close> raises \<open>EMFILE\<close>.\<close>

definition os_no_descriptors :: "nat os" where
  "os_no_descriptors = os_quiet\<lparr>os_socket := (\<lambda>ty w. (Inl OSError, Suc w))\<rparr>"


text \<open>A host that accepts connections on ports 22 and 80.\<close>

definition os_web_host :: "nat os" where
  "os_web_host =
     os_quiet\<lparr>os_connect_ex :=
       (\<lambda>fd ip port w. (Inr (if port = 22 \<or> port = 80 then 0 else 111), Suc w))\<rparr>"






text \<open>
  Adapter status answers: one that registers a group only, a usual one, and one of a
  machine whose own name contains the letters of \<open>group\<close>.
\<close>

definition nmb_lines :: "string list \<Rightarrow> string" where
  "nmb_lines ls = concat (map (\<lambda>l. l @ [CHR 0x0A]) ls)"

definition nmb_group_only :: string where
  "nmb_group_only =
     nmb_lines [''Looking up status of 192.168.1.20'',
                CHR 0x09 # ''WORKGROUP       <00> - <GROUP> B <ACTIVE> '']"

definition nmb_desktop :: string where
  "nmb_desktop =
     nmb_lines [''Looking up status of 192.168.1.20'',
                CHR 0x09 # ''WORKGROUP       <00> - <GROUP> B <ACTIVE> '',
                CHR 0x09 # ''DESKTOP-7       <00> -         B <ACTIVE> '',
                CHR 0x09 # ''DESKTOP-7       <20> -         B <ACTIVE> '']"

definition nmb_grouper :: string where
  "nmb_grouper =
     nmb_lines [''Looking up status of 192.168.1.21'',
                CHR 0x09 # ''GROUPER-PC      <00> -         B <ACTIVE> '',
                CHR 0x09 # ''WORKGROUP       <00> - <GROUP> B <ACTIVE> '']"

definition os_group_only :: "nat os" where
  "os_group_only = os_quiet\<lparr>os_nmblookup := (\<lambda>ip w. (Inr nmb_group_only, Suc w))\<rparr>"

definition os_desktop :: "nat os" where
  "os_desktop = os_quiet\<lparr>os_nmblookup := (\<lambda>ip w. (Inr nmb_desktop, Suc w))\<rparr>"

definition os_grouper :: "nat os" where
  "os_grouper = os_quiet\<lparr>os_nmblookup := (\<lambda>ip w. (Inr nmb_grouper, Suc w))\<rparr>"

text \<open>A reverse zone whose pointer record names the root: the resolver's name is empty.\<close>

definition os_root_pointer :: "nat os" where
  "os_root_pointer = os_quiet\<lparr>os_gethostbyaddr := (\<lambda>ip w. (Inr [], Suc w))\<rparr>"

text \<open>A parser that knows the default network and rejects everything else.\<close>

definition parse_default_only :: "string \<Rightarrow> exn + ip_network" where
  "parse_default_only network =
     (if network = ''192.168.1.0/24'' then Inr (IPv4Network (ipv4 192 168 1 0) 24)
      else Inl ValueError)"

section \<open>Vendor lookup\<close>

lemmas str_eval = oui_prefix_def str_delete_def str_upper_def upper_char_def
    ascii_lowercase_def ascii_uppercase_def str_lower_def lower_char_def

lemma foldl_oui_store_other:
  "\<forall>kv\<in>set kvs. oui_prefix (fst kv) \<noteq> p \<Longrightarrow> foldl oui_store m kvs p = m p"
  by (induction kvs arbitrary: m) (auto simp: oui_store_def)

lemma foldl_oui_store_last:
  "\<forall>kv\<in>set after. oui_prefix (fst kv) \<noteq> oui_prefix k \<Longrightarrow>
   foldl oui_store m (before @ (k, v) # after) (oui_prefix k) = Some v"
  by (simp add: foldl_oui_store_other oui_store_def)

lemma fallback_raspberry:
  "OUI_FALLBACK (oui_prefix ''B8:27:EB:11:22:33'') = Some (JStr ''Raspberry Pi'')"
  by (simp add: OUI_FALLBACK_def OUI_FALLBACK_items_def str_eval)

lemma fallback_no_020000: "oui_prefix ''02:00:00:00:00:01'' \<notin> dom (load_oui_map None)"
  by (simp add: load_oui_map_def OUI_FALLBACK_def OUI_FALLBACK_items_def str_eval domIff)

lemma vendor_from_mac_Some:
  "m \<noteq> [] \<Longrightarrow> vendor_from_mac om (Some m) =
      (case om (oui_prefix m) of None \<Rightarrow> JStr ''Unknown'' | Some v \<Rightarrow> v)"
  by (simp add: vendor_from_mac_def)

lemma foldl_oui_store_merge:
  "foldl oui_store m kvs = m ++ map_of (rev (map (\<lambda>kv. (oui_prefix (fst kv), snd kv)) kvs))"
proof (induction kvs arbitrary: m)
  case Nil
  show ?case by simp
next
  case (Cons kv kvs)
  let ?g = "\<lambda>kv. (oui_prefix (fst kv), snd kv)"
  have step: "oui_store m kv = m ++ [oui_prefix (fst kv) \<mapsto> snd kv]"
    by (simp add: oui_store_def)
  have last: "map_of (rev (map ?g (kv # kvs))) =
      [oui_prefix (fst kv) \<mapsto> snd kv] ++ map_of (rev (map ?g kvs))"
    by (simp only: list.map rev.simps map_of_append map_of.simps fst_conv snd_conv)
  have "foldl oui_store m (kv # kvs) = foldl oui_store (oui_store m kv) kvs" by simp
  also have "\<dots> = oui_store m kv ++ map_of (rev (map ?g kvs))" by (rule Cons.IH)
  also have "\<dots> = (m ++ [oui_prefix (fst kv) \<mapsto> snd kv]) ++ map_of (rev (map ?g kvs))"
    by (simp only: step)
  also have "\<dots> = m ++ ([oui_prefix (fst kv) \<mapsto> snd kv] ++ map_of (rev (map ?g kvs)))"
    by (rule map_add_assoc [symmetric])
  also have "\<dots> = m ++ map_of (rev (map ?g (kv # kvs)))" by (simp only: last)
  finally show ?case .
qed

text \<open>
  C6. A missing or empty hardware address gives \<open>-\<close>. Any other address is
  upper-cased, stripped of \<open>:\<close> and \<open>-\<close>, cut to six characters and looked up in the
  merged table, and a prefix the table does not hold gives \<open>Unknown\<close>. The merged
  table is the built-in table when the override file is absent, unreadable or not an
  object; otherwise it is the built-in table with the normalised keys of the file laid
  over it in file order. So a key of the file that is the last one with its normalised
  form decides the vendor of that prefix, whatever the built-in table or earlier keys
  said, and a prefix no key of the file normalises to keeps its built-in vendor. With
  no usable override file, \<open>B8:27:EB:11:22:33\<close> is a Raspberry Pi.
\<close>

theorem vendor_lookup:
  "vendor_from_mac oui_map None = JStr ''-''
   \<and> vendor_from_mac oui_map (Some []) = JStr ''-''
   \<and> (mac \<noteq> [] \<longrightarrow>
        vendor_from_mac oui_map (Some mac) =
          (case oui_map (oui_prefix mac) of None \<Rightarrow> JStr ''Unknown'' | Some v \<Rightarrow> v))
   \<and> (mac \<noteq> [] \<and> oui_prefix mac \<notin> dom (load_oui_map file) \<longrightarrow>
        vendor_from_mac (load_oui_map file) (Some mac) = JStr ''Unknown'')
   \<and> (mac \<noteq> [] \<and> oui_prefix mac = oui_prefix k
        \<and> (\<forall>kv\<in>set after. oui_prefix (fst kv) \<noteq> oui_prefix k) \<longrightarrow>
        vendor_from_mac (load_oui_map (Some (Inr (JObj (before @ (k, v) # after))))) (Some mac) = v)
   \<and> vendor_from_mac (load_oui_map None) (Some ''B8:27:EB:11:22:33'') = JStr ''Raspberry Pi''
   \<and> vendor_from_mac (load_oui_map (Some (Inl e))) (Some ''B8:27:EB:11:22:33'') = JStr ''Raspberry Pi''
   \<and> load_oui_map None = OUI_FALLBACK
   \<and> load_oui_map (Some (Inl e)) = OUI_FALLBACK
   \<and> (json_items data = Inl e \<longrightarrow> load_oui_map (Some (Inr data)) = OUI_FALLBACK)
   \<and> load_oui_map (Some (Inr (JObj kvs))) =
        OUI_FALLBACK ++ map_of (rev (map (\<lambda>kv. (oui_prefix (fst kv), snd kv)) kvs))
   \<and> (mac \<noteq> [] \<and> (\<forall>kv\<in>set kvs. oui_prefix (fst kv) \<noteq> oui_prefix mac) \<longrightarrow>
        vendor_from_mac (load_oui_map (Some (Inr (JObj kvs)))) (Some mac) =
          vendor_from_mac OUI_FALLBACK (Some mac))"
proof (intro conjI impI)
  show "vendor_from_mac oui_map None = JStr ''-''"
    by (simp add: vendor_from_mac_def)
  show "vendor_from_mac oui_map (Some []) = JStr ''-''"
    by (simp add: vendor_from_mac_def)
  show "vendor_from_mac oui_map (Some mac) =
          (case oui_map (oui_prefix mac) of None \<Rightarrow> JStr ''Unknown'' | Some v \<Rightarrow> v)"
    if "mac \<noteq> []"
    using that by (rule vendor_from_mac_Some)
  show "vendor_from_mac (load_oui_map file) (Some mac) = JStr ''Unknown''"
    if "mac \<noteq> [] \<and> oui_prefix mac \<notin> dom (load_oui_map file)"
    using that by (auto simp: vendor_from_mac_Some domIff)
  show "vendor_from_mac (load_oui_map (Some (Inr (JObj (before @ (k, v) # after))))) (Some mac) = v"
    if "mac \<noteq> [] \<and> oui_prefix mac = oui_prefix k
        \<and> (\<forall>kv\<in>set after. oui_prefix (fst kv) \<noteq> oui_prefix k)"
  proof -
    have "foldl oui_store OUI_FALLBACK (before @ (k, v) # after) (oui_prefix k) = Some v"
      using that by (intro foldl_oui_store_last) blast
    with that show ?thesis
      by (simp add: vendor_from_mac_Some load_oui_map_def del: foldl_append)
  qed
  have pi: "vendor_from_mac OUI_FALLBACK (Some ''B8:27:EB:11:22:33'') = JStr ''Raspberry Pi''"
    by (simp add: vendor_from_mac_Some fallback_raspberry)
  show "vendor_from_mac (load_oui_map None) (Some ''B8:27:EB:11:22:33'') = JStr ''Raspberry Pi''"
    using pi by (simp add: load_oui_map_def)
  show "vendor_from_mac (load_oui_map (Some (Inl e))) (Some ''B8:27:EB:11:22:33'') = JStr ''Raspberry Pi''"
    using pi by (simp add: load_oui_map_def)
  show "load_oui_map None = OUI_FALLBACK"
    by (simp add: load_oui_map_def)
  show "load_oui_map (Some (Inl e)) = OUI_FALLBACK"
    by (simp add: load_oui_map_def)
  show "load_oui_map (Some (Inr data)) = OUI_FALLBACK" if "json_items data = Inl e"
    using that by (simp add: load_oui_map_def)
  show "load_oui_map (Some (Inr (JObj kvs))) =
        OUI_FALLBACK ++ map_of (rev (map (\<lambda>kv. (oui_prefix (fst kv), snd kv)) kvs))"
    by (simp add: load_oui_map_def foldl_oui_store_merge)
  show "vendor_from_mac (load_oui_map (Some (Inr (JObj kvs)))) (Some mac) =
          vendor_from_mac OUI_FALLBACK (Some mac)"
    if "mac \<noteq> [] \<and> (\<forall>kv\<in>set kvs. oui_prefix (fst kv) \<noteq> oui_prefix mac)"
  proof -
    have "foldl oui_store OUI_FALLBACK kvs (oui_prefix mac) = OUI_FALLBACK (oui_prefix mac)"
      using that by (intro foldl_oui_store_other) blast
    with that show ?thesis
      by (simp add: vendor_from_mac_Some load_oui_map_def)
  qed
qed

theorem vendor_lookup_witness:
  "oui_prefix ''b8:27:eb:aa:bb:cc'' = oui_prefix ''B8-27-EB''
   \<and> vendor_from_mac
        (load_oui_map (Some (Inr (JObj ([(''b827eb'', JStr ''Old'')] @ (''B8-27-EB'', JStr ''Acme'') #
           [(''00:11:22'', JStr ''Other'')])))))
        (Some ''b8:27:eb:aa:bb:cc'') = JStr ''Acme''
   \<and> (''02:00:00:00:00:01'' \<noteq> [] \<and> oui_prefix ''02:00:00:00:00:01'' \<notin> dom (load_oui_map None))
   \<and> vendor_from_mac (load_oui_map None) (Some ''02:00:00:00:00:01'') = JStr ''Unknown''
   \<and> vendor_from_mac (load_oui_map (Some (Inr (JObj [(''AABBCC'', JStr ''Acme'')]))))
        (Some ''B8:27:EB:11:22:33'') = JStr ''Raspberry Pi''"
proof -
  have h1: "''b8:27:eb:aa:bb:cc'' \<noteq> []
      \<and> oui_prefix ''b8:27:eb:aa:bb:cc'' = oui_prefix ''B8-27-EB''
      \<and> (\<forall>kv\<in>set [(''00:11:22'', JStr ''Other'')]. oui_prefix (fst kv) \<noteq> oui_prefix ''B8-27-EB'')"
    by (simp add: str_eval)
  have h2: "''02:00:00:00:00:01'' \<noteq> [] \<and> oui_prefix ''02:00:00:00:00:01'' \<notin> dom (load_oui_map None)"
    using fallback_no_020000 by simp
  have h3: "''B8:27:EB:11:22:33'' \<noteq> []
      \<and> (\<forall>kv\<in>set [(''AABBCC'', JStr ''Acme'')].
            oui_prefix (fst kv) \<noteq> oui_prefix ''B8:27:EB:11:22:33'')"
    by (simp add: str_eval)
  note override = vendor_lookup [of "load_oui_map None" "''b8:27:eb:aa:bb:cc''" None "''B8-27-EB''"
      "[(''00:11:22'', JStr ''Other'')]" "[(''b827eb'', JStr ''Old'')]" "JStr ''Acme''"]
  note unknown = vendor_lookup [of "load_oui_map None" "''02:00:00:00:00:01''" None]
  note kept = vendor_lookup [of OUI_FALLBACK "''B8:27:EB:11:22:33''" None _ _ _ _ OSError _
      "[(''AABBCC'', JStr ''Acme'')]"]
  have a: "vendor_from_mac
        (load_oui_map (Some (Inr (JObj ([(''b827eb'', JStr ''Old'')] @ (''B8-27-EB'', JStr ''Acme'') #
           [(''00:11:22'', JStr ''Other'')])))))
        (Some ''b8:27:eb:aa:bb:cc'') = JStr ''Acme''"
    by (rule override [THEN conjunct2, THEN conjunct2, THEN conjunct2, THEN conjunct2,
          THEN conjunct1, THEN mp, OF h1])
  have b: "vendor_from_mac (load_oui_map None) (Some ''02:00:00:00:00:01'') = JStr ''Unknown''"
    by (rule unknown [THEN conjunct2, THEN conjunct2, THEN conjunct2, THEN conjunct1,
          THEN mp, OF h2])
  have c0: "vendor_from_mac (load_oui_map (Some (Inr (JObj [(''AABBCC'', JStr ''Acme'')]))))
        (Some ''B8:27:EB:11:22:33'') = vendor_from_mac OUI_FALLBACK (Some ''B8:27:EB:11:22:33'')"
    by (rule kept [THEN conjunct2, THEN conjunct2, THEN conjunct2, THEN conjunct2,
          THEN conjunct2, THEN conjunct2, THEN conjunct2, THEN conjunct2, THEN conjunct2,
          THEN conjunct2, THEN conjunct2, THEN mp, OF h3])
  have pi: "vendor_from_mac (load_oui_map None) (Some ''B8:27:EB:11:22:33'') = JStr ''Raspberry Pi''"
    by (rule kept [THEN conjunct2, THEN conjunct2, THEN conjunct2, THEN conjunct2,
          THEN conjunct2, THEN conjunct1])
  have none: "load_oui_map None = OUI_FALLBACK"
    by (rule kept [THEN conjunct2, THEN conjunct2, THEN conjunct2, THEN conjunct2,
          THEN conjunct2, THEN conjunct2, THEN conjunct2, THEN conjunct1])
  have c: "vendor_from_mac (load_oui_map (Some (Inr (JObj [(''AABBCC'', JStr ''Acme'')]))))
        (Some ''B8:27:EB:11:22:33'') = JStr ''Raspberry Pi''"
    using c0 pi unfolding none by (rule trans)
  from h1 have h1': "oui_prefix ''b8:27:eb:aa:bb:cc'' = oui_prefix ''B8-27-EB''"
    by (rule conjunct1 [OF conjunct2])
  show ?thesis by (rule conjI [OF h1' conjI [OF a conjI [OF h2 conjI [OF b c]]]])
qed

text \<open>
  C10. Two non-empty hardware addresses whose normalised forms (upper-cased, \<open>:\<close> and
  \<open>-\<close> removed) agree on their first six characters get the same vendor, whatever the
  table: case, delimiters and the rest of the address do not matter.
\<close>

theorem vendor_congruent:
  assumes "mac1 \<noteq> []" and "mac2 \<noteq> []"
    and "take 6 (str_delete (CHR ''-'') (str_delete (CHR '':'') (str_upper mac1))) =
         take 6 (str_delete (CHR ''-'') (str_delete (CHR '':'') (str_upper mac2)))"
  shows "vendor_from_mac oui_map (Some mac1) = vendor_from_mac oui_map (Some mac2)"
  using assms by (simp add: vendor_from_mac_def oui_prefix_def)

theorem vendor_congruent_witness:
  "vendor_from_mac (load_oui_map None) (Some ''b8-27-eb-00-00-01'') =
   vendor_from_mac (load_oui_map None) (Some ''B8:27:EB:11:22:33'')"
  by (rule vendor_congruent) (simp_all add: str_eval)

section \<open>Runs on the sample worlds\<close>

lemmas probe_eval = tcp_check_def socket_new_def socket_close_def log_probe_def
  verdict_of_bool_def udp_nudge_def ping_def nmb_has_name_def mac_for_ip_def read_arp_table_def
  truthy_def

lemma quiet_udp_nudge:
  "udp_nudge os_quiet ip port s =
     s\<lparr>world := Suc (Suc (Suc (world s))), probes := probes s @ [(Nudge ip, NoVerdict)]\<rparr>"
  by (simp add: os_quiet_def probe_eval)

lemma quiet_mac_for_ip:
  "mac_for_ip os_quiet ip s =
     (None, s\<lparr>world := Suc (world s), probes := probes s @ [(Neighbor ip, Negative)]\<rparr>)"
  by (simp add: os_quiet_def probe_eval)

lemma quiet_ping:
  "ping os_quiet ip s =
     (False, s\<lparr>world := Suc (world s), probes := probes s @ [(Icmp ip, Negative)]\<rparr>)"
  by (simp add: os_quiet_def probe_eval)

lemma quiet_tcp_check:
  "tcp_check os_quiet ip p s =
     (Inr False, s\<lparr>world := Suc (Suc (Suc (world s))), probes := probes s @ [(Tcp ip p, Negative)]\<rparr>)"
  by (simp add: os_quiet_def probe_eval)

lemma quiet_nmb_has_name:
  "nmb_has_name os_quiet ip s =
     (False, s\<lparr>world := Suc (world s), probes := probes s @ [(Netbios ip, Negative)]\<rparr>)"
  by (simp add: os_quiet_def probe_eval)

lemmas quiet_eval = quiet_udp_nudge quiet_mac_for_ip quiet_ping quiet_tcp_check quiet_nmb_has_name

lemma quiet_is_alive: "fst (is_alive os_quiet ''192.168.1.7'' proc0) = Inr False"
  by (simp add: is_alive_def PORTS_def quiet_eval truthy_def)

lemma quiet_tcp_check_all:
  "\<forall>r\<in>set (fst (tcp_check_all os_quiet ''192.168.1.7'' PORTS proc0)). r = Inr False"
  by (simp add: PORTS_def quiet_tcp_check)

lemma web_tcp_check:
  "tcp_check os_web_host ip p s =
     (Inr (p = 22 \<or> p = 80),
      s\<lparr>world := Suc (Suc (Suc (world s))),
        probes := probes s @ [(Tcp ip p, verdict_of_bool (p = 22 \<or> p = 80))]\<rparr>)"
  by (simp add: os_web_host_def os_quiet_def probe_eval)

lemma web_scan: "fst (scan_ports os_web_host ''192.168.1.5'' proc0) = Inr [22, 80]"
  by (simp add: scan_ports_def PORTS_def web_tcp_check)



section \<open>Port scan\<close>


lemma subseq_distinct_imp: "subseq xs ys \<Longrightarrow> distinct ys \<Longrightarrow> distinct xs"
proof (induction rule: list_emb.induct)
  case (list_emb_Cons2 x y xs ys)
  then show ?case by (auto elim: list_emb_set)
qed auto

lemma subseq_set_subset: "subseq xs ys \<Longrightarrow> set xs \<subseteq> set ys"
  by (auto elim: list_emb_set)

lemma length_tcp_check_all:
  "tcp_check_all os ip ps s = (rs, s') \<Longrightarrow> length rs = length ps"
  by (induction ps arbitrary: s rs s') (auto split: prod.splits)

lemma collect_open_Inr:
  "collect_open prs acc = Inr res \<Longrightarrow> res = acc @ accepted prs"
  by (induction prs acc rule: collect_open.induct) (auto simp: accepted_def)

lemma collect_open_total:
  "\<forall>pr\<in>set prs. \<forall>e. snd pr \<noteq> Inl e \<Longrightarrow> \<exists>res. collect_open prs acc = Inr res"
  by (induction prs acc rule: collect_open.induct) auto

lemma accepted_subseq: "subseq (accepted prs) (map fst prs)"
  unfolding accepted_def by (intro subseq_map subseq_filter_left)

lemma tcp_check_no_raise:
  assumes "\<forall>w e. fst (os_socket os SOCK_STREAM w) \<noteq> Inl e"
  shows "fst (tcp_check os ip p s) \<noteq> Inl e"
proof -
  obtain r w where sock: "os_socket os SOCK_STREAM (world s) = (r, w)"
    by (cases "os_socket os SOCK_STREAM (world s)")
  with assms have "\<forall>e. r \<noteq> Inl e" by (metis fst_conv)
  then obtain fd where "r = Inr fd" by (cases r) auto
  with sock show ?thesis
    unfolding tcp_check_def socket_new_def
    by (simp split: prod.splits sum.splits option.splits)
qed

lemma tcp_check_all_no_raise:
  "\<forall>w e. fst (os_socket os SOCK_STREAM w) \<noteq> Inl e \<Longrightarrow>
   tcp_check_all os ip ps s = (rs, s') \<Longrightarrow> \<forall>r\<in>set rs. \<forall>e. r \<noteq> Inl e"
proof (induction ps arbitrary: s rs s')
  case Nil
  then show ?case by simp
next
  case (Cons p ps)
  obtain r s1 where 1: "tcp_check os ip p s = (r, s1)" by (cases "tcp_check os ip p s")
  obtain rs' s2 where 2: "tcp_check_all os ip ps s1 = (rs', s2)" by (cases "tcp_check_all os ip ps s1")
  from Cons.prems(2) 1 2 have rs: "rs = r # rs'" by simp
  have "\<forall>e. r \<noteq> Inl e" using tcp_check_no_raise [OF Cons.prems(1), of ip p s] 1
    by (metis fst_conv)
  moreover have "\<forall>r\<in>set rs'. \<forall>e. r \<noteq> Inl e" using Cons.IH [OF Cons.prems(1) 2] .
  ultimately show ?case using rs by simp
qed

lemma PORTS_distinct: "distinct PORTS"
  by (simp add: PORTS_def)

text \<open>
  C5. Whenever the port scan of a host returns, its result is the list of the ports of
  \<open>PORTS\<close> whose check succeeded, in the order of \<open>PORTS\<close>: a subsequence of
  \<open>PORTS\<close>, so every reported port is a configured one, none is reported twice and
  the result is no longer than \<open>PORTS\<close>. The scan does return when no socket
  creation fails, and it returns the empty list when no port accepts.
\<close>

theorem scan_ports_subsequence:
  "(fst (scan_ports os ip s) = Inr ps \<longrightarrow>
      ps = accepted (zip PORTS (fst (tcp_check_all os ip PORTS s)))
      \<and> subseq ps PORTS \<and> set ps \<subseteq> set PORTS \<and> distinct ps \<and> length ps \<le> length PORTS)
   \<and> ((\<forall>w e. fst (os_socket os SOCK_STREAM w) \<noteq> Inl e) \<longrightarrow>
        (\<exists>ps. fst (scan_ports os ip s) = Inr ps))
   \<and> ((\<forall>r\<in>set (fst (tcp_check_all os ip PORTS s)). r = Inr False) \<longrightarrow>
        fst (scan_ports os ip s) = Inr [])"
proof -
  obtain rs s1 where all: "tcp_check_all os ip PORTS s = (rs, s1)"
    by (cases "tcp_check_all os ip PORTS s")
  then have scan: "fst (scan_ports os ip s) = collect_open (zip PORTS rs) []"
    by (simp add: scan_ports_def)
  from all have len: "length rs = length PORTS" by (rule length_tcp_check_all)
  then have keys: "map fst (zip PORTS rs) = PORTS" by simp
  have shape: "ps = accepted (zip PORTS rs) \<and> subseq ps PORTS \<and> set ps \<subseteq> set PORTS
      \<and> distinct ps \<and> length ps \<le> length PORTS"
    if "fst (scan_ports os ip s) = Inr ps"
  proof -
    from that scan have ps: "ps = accepted (zip PORTS rs)"
      using collect_open_Inr [of "zip PORTS rs" "[]" ps] by simp
    have sub: "subseq ps PORTS"
      using accepted_subseq [of "zip PORTS rs"] keys ps by simp
    have "set ps \<subseteq> set PORTS" using sub by (rule subseq_set_subset)
    moreover have "distinct ps" using sub PORTS_distinct by (rule subseq_distinct_imp)
    moreover have "length ps \<le> length PORTS" using sub by (rule list_emb_length)
    ultimately show ?thesis using ps sub by (intro conjI)
  qed
  have total: "\<exists>ps. fst (scan_ports os ip s) = Inr ps"
    if "\<forall>w e. fst (os_socket os SOCK_STREAM w) \<noteq> Inl e"
  proof -
    from tcp_check_all_no_raise [OF that all] have "\<forall>pr\<in>set (zip PORTS rs). \<forall>e. snd pr \<noteq> Inl e"
      by (auto dest: set_zip_rightD)
    then show ?thesis unfolding scan by (rule collect_open_total)
  qed
  have none: "fst (scan_ports os ip s) = Inr []" if "\<forall>r\<in>set rs. r = Inr False"
  proof -
    from that have no: "\<forall>pr\<in>set (zip PORTS rs). snd pr = Inr False"
      by (auto dest: set_zip_rightD)
    then have "\<forall>pr\<in>set (zip PORTS rs). \<forall>e. snd pr \<noteq> Inl e" by simp
    then obtain res where res: "collect_open (zip PORTS rs) [] = Inr res"
      using collect_open_total by blast
    then have "res = accepted (zip PORTS rs)" using collect_open_Inr by fastforce
    also have "\<dots> = []" using no by (simp add: accepted_def filter_empty_conv)
    finally show ?thesis using res scan by simp
  qed
  have rs: "fst (tcp_check_all os ip PORTS s) = rs" using all by simp
  have A: "fst (scan_ports os ip s) = Inr ps \<longrightarrow>
      ps = accepted (zip PORTS rs)
      \<and> subseq ps PORTS \<and> set ps \<subseteq> set PORTS \<and> distinct ps \<and> length ps \<le> length PORTS"
    by (rule impI) (rule shape)
  have B: "(\<forall>w e. fst (os_socket os SOCK_STREAM w) \<noteq> Inl e) \<longrightarrow>
        (\<exists>ps. fst (scan_ports os ip s) = Inr ps)"
    by (rule impI) (rule total)
  have C: "(\<forall>r\<in>set rs. r = Inr False) \<longrightarrow> fst (scan_ports os ip s) = Inr []"
    by (rule impI) (rule none)
  show ?thesis unfolding rs by (rule conjI [OF A conjI [OF B C]])
qed

theorem scan_ports_subsequence_witness:
  "fst (scan_ports os_web_host ''192.168.1.5'' proc0) = Inr [22, 80]
   \<and> subseq [22, 80] PORTS \<and> distinct [22, 80 :: nat] \<and> length [22, 80 :: nat] \<le> length PORTS
   \<and> fst (scan_ports os_quiet ''192.168.1.7'' proc0) = Inr []"
proof -
  note web = scan_ports_subsequence [of os_web_host "''192.168.1.5''" proc0 "[22, 80]"]
  note quiet = scan_ports_subsequence [of os_quiet "''192.168.1.7''" proc0 "[]"]
  have run: "fst (scan_ports os_web_host ''192.168.1.5'' proc0) = Inr [22, 80]"
    by (rule web_scan)
  have "[22, 80] = accepted (zip PORTS (fst (tcp_check_all os_web_host ''192.168.1.5'' PORTS proc0)))
      \<and> subseq [22, 80] PORTS \<and> set [22, 80] \<subseteq> set PORTS \<and> distinct [22, 80 :: nat]
      \<and> length [22, 80 :: nat] \<le> length PORTS"
    by (rule web [THEN conjunct1, THEN mp, OF run])
  then have shape: "subseq [22, 80] PORTS \<and> distinct [22, 80 :: nat]
      \<and> length [22, 80 :: nat] \<le> length PORTS"
    by blast
  have none: "fst (scan_ports os_quiet ''192.168.1.7'' proc0) = Inr []"
    by (rule quiet [THEN conjunct2, THEN conjunct2, THEN mp, OF quiet_tcp_check_all])
  show ?thesis by (rule conjI [OF run conjI [OF shape [THEN conjunct1]
    conjI [OF shape [THEN conjunct2, THEN conjunct1] conjI [OF shape [THEN conjunct2, THEN conjunct2] none]]]])
qed

section \<open>Exceptions and sockets\<close>

text \<open>
  C4. \<^verbatim>\<open>is_alive\<close> is meant never to raise: a probe that fails counts as a negative
  probe. \<^verbatim>\<open>tcp_check\<close> creates its socket before its \<^verbatim>\<open>try\<close>, so when the
  process can get no socket (\<open>EMFILE\<close>, or a denied permission) the error leaves
  \<^verbatim>\<open>tcp_check\<close> and \<^verbatim>\<open>is_alive\<close> at the first port. In this run the nudge, whose
  socket is created inside its \<^verbatim>\<open>try\<close>, swallows the same error, the neighbour
  table and the ping say no, and the check of port 21 ends the call with
  \<^verbatim>\<open>OSError\<close>.
\<close>

theorem is_alive_raises:
  "is_alive os_no_descriptors ''192.168.1.7'' proc0 =
     (Inl OSError,
      \<lparr>world = 4, open_socks = [],
       probes = [(Nudge ''192.168.1.7'', NoVerdict), (Neighbor ''192.168.1.7'', Negative),
                 (Icmp ''192.168.1.7'', Negative), (Tcp ''192.168.1.7'' 21, Raised OSError)]\<rparr>)"
  by (simp add: is_alive_def PORTS_def os_no_descriptors_def os_quiet_def proc0_def probe_eval)

text \<open>
  \<^verbatim>\<open>tcp_check\<close> has called \<^verbatim>\<open>close\<close> on its socket whenever \<^verbatim>\<open>connect_ex\<close>
  returns, with any result; when the socket cannot be created there is none to close.
  The \<^verbatim>\<open>except\<close> branch, taken when \<^verbatim>\<open>connect_ex\<close> raises, makes no such
  call.
\<close>

lemma tcp_check_closes:
  assumes "\<forall>fd w e w'. os_connect_ex os fd ip port w \<noteq> (Inl e, w')"
  shows "open_socks (snd (tcp_check os ip port s)) = open_socks s"
  using assms unfolding tcp_check_def socket_new_def socket_close_def log_probe_def
  by (auto split: prod.splits sum.splits option.splits)

section \<open>Neighbour table\<close>


















section \<open>Fallback network\<close>

lemma upt_add_eq_map: "[a + i ..< a + j] = map ((+) a) [i..<j]"
  by (induction j) simp_all

lemma ipv4_default_plus: "ipv4 192 168 1 = (+) 3232235776"
  by (rule ext) (simp add: ipv4_def)

lemma hosts_default:
  "hosts (IPv4Network (ipv4 192 168 1 0) 24) = map (ipv4 192 168 1) [1..<255]"
proof -
  have "hosts (IPv4Network (3232235776 + 0) 24) = [3232235776 + 1 ..< 3232235776 + 255]"
    by (simp del: upt_rec_numeral)
  also have "\<dots> = map ((+) 3232235776) [1..<255]"
    by (rule upt_add_eq_map)
  finally show ?thesis
    by (simp only: ipv4_default_plus)
qed

lemma hosts_default_length: "length (hosts (IPv4Network (ipv4 192 168 1 0) 24)) = 254"
  unfolding hosts_default by simp

lemma hosts_default_distinct: "distinct (hosts (IPv4Network (ipv4 192 168 1 0) 24))"
  unfolding hosts_default ipv4_default_plus by (simp add: distinct_map)

lemma hosts_default_range:
  "set (hosts (IPv4Network (ipv4 192 168 1 0) 24)) = {ipv4 192 168 1 d | d. 1 \<le> d \<and> d < 255}"
  unfolding hosts_default by auto

text \<open>
  C8. When the library rejects the network string, \<^verbatim>\<open>main\<close> prints its warning and
  goes on with \<open>192.168.1.0/24\<close>, which the library parses to that network. Its
  hosts are the 254 addresses \<open>192.168.1.1\<close> to \<open>192.168.1.254\<close>, each once:
  neither \<open>192.168.1.0\<close> nor \<open>192.168.1.255\<close> is among them.
\<close>

theorem select_network_fallback:
  assumes "parse network = Inl e"
    and "parse ''192.168.1.0/24'' = Inr (IPv4Network (ipv4 192 168 1 0) 24)"
  shows "select_network parse network =
           (Inr (IPv4Network (ipv4 192 168 1 0) 24),
            [YELLOW @ ''Invalid network, defaulting to 192.168.1.0/24'' @ RESET])
         \<and> hosts (IPv4Network (ipv4 192 168 1 0) 24) = map (ipv4 192 168 1) [1..<255]
         \<and> length (hosts (IPv4Network (ipv4 192 168 1 0) 24)) = 254
         \<and> distinct (hosts (IPv4Network (ipv4 192 168 1 0) 24))
         \<and> ipv4 192 168 1 0 \<notin> set (hosts (IPv4Network (ipv4 192 168 1 0) 24))
         \<and> ipv4 192 168 1 255 \<notin> set (hosts (IPv4Network (ipv4 192 168 1 0) 24))"
proof (intro conjI)
  show "select_network parse network =
           (Inr (IPv4Network (ipv4 192 168 1 0) 24),
            [YELLOW @ ''Invalid network, defaulting to 192.168.1.0/24'' @ RESET])"
    using assms by (simp add: select_network_def)
  show "hosts (IPv4Network (ipv4 192 168 1 0) 24) = map (ipv4 192 168 1) [1..<255]"
    by (rule hosts_default)
  show "length (hosts (IPv4Network (ipv4 192 168 1 0) 24)) = 254"
    by (rule hosts_default_length)
  show "distinct (hosts (IPv4Network (ipv4 192 168 1 0) 24))"
    by (rule hosts_default_distinct)
  show "ipv4 192 168 1 0 \<notin> set (hosts (IPv4Network (ipv4 192 168 1 0) 24))"
    unfolding hosts_default_range by (simp add: ipv4_def)
  show "ipv4 192 168 1 255 \<notin> set (hosts (IPv4Network (ipv4 192 168 1 0) 24))"
    unfolding hosts_default_range by (simp add: ipv4_def)
qed

theorem select_network_fallback_witness:
  "select_network parse_default_only ''not-a-network'' =
     (Inr (IPv4Network (ipv4 192 168 1 0) 24),
      [YELLOW @ ''Invalid network, defaulting to 192.168.1.0/24'' @ RESET])
   \<and> length (hosts (IPv4Network (ipv4 192 168 1 0) 24)) = 254"
proof -
  have bad: "parse_default_only ''not-a-network'' = Inl ValueError"
    by (simp add: parse_default_only_def)
  have good: "parse_default_only ''192.168.1.0/24'' = Inr (IPv4Network (ipv4 192 168 1 0) 24)"
    by (simp add: parse_default_only_def)
  note fallback = select_network_fallback [OF bad good]
  show ?thesis
    by (rule conjI [OF fallback [THEN conjunct1] fallback [THEN conjunct2, THEN conjunct2, THEN conjunct1]])
qed

section \<open>NetBIOS probe\<close>

lemma str_contains_sublist: "str_contains sub s \<longleftrightarrow> sublist sub s"
  by (induction s) (simp_all add: sublist_Cons_right)

lemma sublist_across:
  assumes "c \<notin> set xs" and "xs \<noteq> []"
  shows "sublist xs (a @ c # b) \<longleftrightarrow> sublist xs a \<or> sublist xs b"
proof -
  have 1: "sublist xs (c # b) \<longleftrightarrow> sublist xs b"
    using assms by (cases xs) (auto simp: sublist_Cons_right)
  have 2: "\<not> (\<exists>xs1 xs2. xs = xs1 @ xs2 \<and> suffix xs1 a \<and> prefix xs2 (c # b)) \<or> sublist xs a"
  proof (rule disjCI)
    assume "\<not> sublist xs a"
    show "\<not> (\<exists>xs1 xs2. xs = xs1 @ xs2 \<and> suffix xs1 a \<and> prefix xs2 (c # b))"
    proof
      assume "\<exists>xs1 xs2. xs = xs1 @ xs2 \<and> suffix xs1 a \<and> prefix xs2 (c # b)"
      then obtain xs1 xs2 where x: "xs = xs1 @ xs2" "suffix xs1 a" "prefix xs2 (c # b)" by blast
      show False
      proof (cases xs2)
        case Nil
        with x have "suffix xs a" by simp
        then have "sublist xs a" by (rule suffix_imp_sublist)
        with \<open>\<not> sublist xs a\<close> show False by simp
      next
        case (Cons y ys)
        with x(3) have "y = c" by simp
        with Cons x(1) assms(1) show False by simp
      qed
    qed
  qed
  show ?thesis
    unfolding sublist_append [of xs a "c # b"] 1 using 2 by blast
qed

lemma str_contains_across:
  "c \<notin> set sub \<Longrightarrow> sub \<noteq> [] \<Longrightarrow>
   str_contains sub (a @ c # b) \<longleftrightarrow> str_contains sub a \<or> str_contains sub b"
  by (simp add: str_contains_sublist sublist_across)

lemma str_contains_lines:
  assumes "sub \<noteq> []" and "\<forall>c\<in>set sub. \<not> is_linebreak c"
  shows "list_ex (str_contains sub) (splitlines_acc cur s) \<longleftrightarrow> str_contains sub (cur @ s)"
proof (induction cur s rule: splitlines_acc.induct)
  case (1 cur)
  then show ?case using assms(1) by (cases cur) simp_all
next
  case (2 cur c)
  show ?case
  proof (cases "is_linebreak c")
    case True
    with assms have "c \<notin> set sub" by blast
    from str_contains_across [OF this assms(1), of cur "[]"] assms(1) True
    show ?thesis by simp
  next
    case False
    then show ?thesis by simp
  qed
next
  case (3 cur c d cs)
  show ?case
  proof (cases "c = CHR 0x0D \<and> d = CHR 0x0A")
    case True
    then have "is_linebreak c" "is_linebreak d" by (simp_all add: is_linebreak_def)
    with assms have c: "c \<notin> set sub" and d: "d \<notin> set sub" by blast+
    have "str_contains sub (cur @ c # d # cs) \<longleftrightarrow> str_contains sub cur \<or> str_contains sub (d # cs)"
      by (rule str_contains_across [OF c assms(1)])
    also have "str_contains sub (d # cs) \<longleftrightarrow> str_contains sub cs"
      using str_contains_across [OF d assms(1), of "[]" cs] assms(1) by simp
    finally show ?thesis using True 3(1) by simp
  next
    case crlf: False
    show ?thesis
    proof (cases "is_linebreak c")
      case True
      with assms have c: "c \<notin> set sub" by blast
      have step: "splitlines_acc cur (c # d # cs) = cur # splitlines_acc [] (d # cs)"
        by (subst splitlines_acc.simps) (simp only: crlf True if_False if_True)
      have across: "str_contains sub (cur @ c # d # cs) \<longleftrightarrow>
          str_contains sub cur \<or> str_contains sub (d # cs)"
        by (rule str_contains_across [OF c assms(1)])
      have ih: "list_ex (str_contains sub) (splitlines_acc [] (d # cs)) \<longleftrightarrow>
          str_contains sub ([] @ d # cs)"
        by (rule 3(2) [OF crlf True])
      show ?thesis unfolding step across using ih
        by (simp del: str_contains.simps splitlines_acc.simps)
    next
      case False
      have step: "splitlines_acc cur (c # d # cs) = splitlines_acc (cur @ [c]) (d # cs)"
        by (subst splitlines_acc.simps) (simp only: crlf False if_False)
      have ih: "list_ex (str_contains sub) (splitlines_acc (cur @ [c]) (d # cs)) \<longleftrightarrow>
          str_contains sub ((cur @ [c]) @ d # cs)"
        by (rule 3(3) [OF crlf False])
      show ?thesis unfolding step using ih
        by (simp del: str_contains.simps splitlines_acc.simps)
    qed
  qed
qed

lemma marker_no_linebreak: "\<forall>c\<in>set ''<00>''. \<not> is_linebreak c"
  by (simp add: is_linebreak_def)

lemma contains_marker_lines:
  "str_contains ''<00>'' out \<longleftrightarrow> list_ex (str_contains ''<00>'') (str_splitlines out)"
  using str_contains_lines [of "''<00>''" "[]" out] marker_no_linebreak
  by (simp add: str_splitlines_def)

lemma fst_nmb_has_name:
  "fst (nmb_has_name os ip s) =
     (case fst (os_nmblookup os ip (world s)) of Inl e \<Rightarrow> False
      | Inr out \<Rightarrow> str_contains ''<00>'' out)"
  by (simp add: nmb_has_name_def split: prod.splits sum.splits)

lemma workstation_record_marker: "workstation_record L \<Longrightarrow> str_contains ''<00>'' L"
  by (simp add: workstation_record_def)

text \<open>
  C3, as the code has it. \<^verbatim>\<open>nmb_has_name\<close> is false when the query fails.
  Otherwise it is true exactly when the response contains \<open><00>\<close>, that is, when
  some line of the response does: any \<open><00>\<close> record counts, a group record as
  much as a unique name. A response with a workstation record is therefore a hit, but
  not only such a response.
\<close>

theorem nmb_has_name_any_record:
  "(fst (os_nmblookup os ip (world s)) = Inl e \<longrightarrow> \<not> fst (nmb_has_name os ip s))
   \<and> (fst (os_nmblookup os ip (world s)) = Inr out \<longrightarrow>
        fst (nmb_has_name os ip s) = str_contains ''<00>'' out
        \<and> fst (nmb_has_name os ip s) = list_ex (str_contains ''<00>'') (str_splitlines out)
        \<and> (has_workstation_record out \<longrightarrow> fst (nmb_has_name os ip s)))"
proof (intro conjI impI)
  assume "fst (os_nmblookup os ip (world s)) = Inl e"
  then show "\<not> fst (nmb_has_name os ip s)" by (simp add: fst_nmb_has_name)
next
  assume out: "fst (os_nmblookup os ip (world s)) = Inr out"
  then show a: "fst (nmb_has_name os ip s) = str_contains ''<00>'' out"
    by (simp add: fst_nmb_has_name)
  then show b: "fst (nmb_has_name os ip s) = list_ex (str_contains ''<00>'') (str_splitlines out)"
    by (simp only: contains_marker_lines)
  assume "has_workstation_record out"
  then have "list_ex (str_contains ''<00>'') (str_splitlines out)"
    unfolding has_workstation_record_def list_ex_iff
    by (blast intro: workstation_record_marker)
  with b show "fst (nmb_has_name os ip s)" by simp
qed

lemma group_only_response:
  "fst (os_nmblookup os_group_only ''192.168.1.20'' (world proc0)) = Inr nmb_group_only"
  by (simp add: os_group_only_def os_quiet_def)

lemma group_only_marker: "str_contains ''<00>'' nmb_group_only"
  by (simp add: nmb_group_only_def nmb_lines_def)

lemma group_only_no_workstation: "\<not> has_workstation_record nmb_group_only"
  by (simp add: has_workstation_record_def workstation_record_def group_record_def
      nmb_group_only_def nmb_lines_def str_splitlines_def is_linebreak_def)

text \<open>
  C3, as stated, asks for a \<open><00>\<close> record that is not a group record. The
  response below has a single \<open><00>\<close> line, a group record, and
  \<^verbatim>\<open>nmb_has_name\<close> reports a hit.
\<close>

theorem nmb_has_name_group_only:
  "fst (os_nmblookup os_group_only ''192.168.1.20'' (world proc0)) = Inr nmb_group_only
   \<and> fst (nmb_has_name os_group_only ''192.168.1.20'' proc0)
   \<and> \<not> has_workstation_record nmb_group_only"
  using group_only_response group_only_marker group_only_no_workstation
  by (simp add: fst_nmb_has_name)

lemma desktop_response:
  "fst (os_nmblookup os_desktop ''192.168.1.20'' (world proc0)) = Inr nmb_desktop"
  by (simp add: os_desktop_def os_quiet_def)

lemma quiet_response:
  "fst (os_nmblookup os_quiet ''192.168.1.7'' (world proc0)) = Inl CalledProcessError"
  by (simp add: os_quiet_def)

theorem nmb_has_name_any_record_witness:
  "fst (nmb_has_name os_group_only ''192.168.1.20'' proc0) = str_contains ''<00>'' nmb_group_only
   \<and> \<not> fst (nmb_has_name os_quiet ''192.168.1.7'' proc0)"
proof -
  note hit = nmb_has_name_any_record [of os_group_only "''192.168.1.20''" proc0 _ nmb_group_only,
      THEN conjunct2, THEN mp, OF group_only_response, THEN conjunct1]
  note miss = nmb_has_name_any_record [of os_quiet "''192.168.1.7''" proc0 CalledProcessError,
      THEN conjunct1, THEN mp, OF quiet_response]
  show ?thesis by (rule conjI [OF hit miss])
qed

section \<open>Host name resolution\<close>

lemma split_acc_nonempty:
  "cur \<noteq> [] \<or> (\<exists>c\<in>set s. \<not> is_space c) \<Longrightarrow> split_acc cur s \<noteq> []"
  by (induction s arbitrary: cur) auto

lemma marker_char: "CHR ''<'' \<in> set ''<00>'' \<and> \<not> is_space (CHR ''<'')"
  by (simp add: is_space_def)

lemma line_164_split: "line_164 L \<Longrightarrow> str_split L \<noteq> []"
proof -
  assume "line_164 L"
  then have "sublist ''<00>'' L"
    by (simp only: line_164_def str_contains_sublist)
  then have "set ''<00>'' \<subseteq> set L" by (rule set_mono_sublist)
  with marker_char have "\<exists>c\<in>set L. \<not> is_space c" by blast
  then show ?thesis unfolding str_split_def by (intro split_acc_nonempty) simp
qed

lemma first_name_folded:
  "first_name (line # rest) =
     (let L = str_strip line in
      if line_164 L then
        (case str_split L of
           [] \<Rightarrow> Inl IndexError
         | name # _ \<Rightarrow> if usable_name name then Inr (Some name) else first_name rest)
      else first_name rest)"
  unfolding first_name.simps line_164_def usable_name_def by (rule refl)

lemma names_by_Cons:
  "names_by record (line # rest) =
     (if record (str_strip line)
      then filter usable_name (take 1 (str_split (str_strip line))) @ names_by record rest
      else names_by record rest)"
  by (simp add: names_by_def)

lemma first_name_names:
  "first_name ls = Inr (case names_by line_164 ls of [] \<Rightarrow> None | n # _ \<Rightarrow> Some n)"
proof (induction ls)
  case Nil
  then show ?case by (simp add: names_by_def)
next
  case (Cons line rest)
  show ?case
  proof (cases "line_164 (str_strip line)")
    case False
    then show ?thesis
      using Cons.IH by (simp only: first_name_folded names_by_Cons Let_def if_False)
  next
    case True
    from line_164_split [OF True] obtain name more
      where toks: "str_split (str_strip line) = name # more"
      by (cases "str_split (str_strip line)") auto
    show ?thesis
    proof (cases "usable_name name")
      case usable: True
      then show ?thesis
        by (simp add: first_name_folded names_by_Cons Let_def True toks
            del: first_name.simps)
    next
      case False
      then show ?thesis
        using Cons.IH
        by (simp add: first_name_folded names_by_Cons Let_def True toks
            del: first_name.simps)
    qed
  qed
qed

lemma names_by_usable: "n \<in> set (names_by record ls) \<Longrightarrow> usable_name n"
  by (simp add: names_by_def)

lemma first_of_names_nonempty:
  "(case names_by record ls of [] \<Rightarrow> ''-'' | n # _ \<Rightarrow> n) \<noteq> []"
proof (cases "names_by record ls")
  case Nil
  then show ?thesis by simp
next
  case (Cons n ns)
  then have "n \<in> set (names_by record ls)" by simp
  then have "usable_name n" by (rule names_by_usable)
  with Cons show ?thesis by (simp add: usable_name_def)
qed

lemma sublist_map_both: "sublist xs ys \<Longrightarrow> sublist (map f xs) (map f ys)"
proof -
  assume "sublist xs ys"
  then obtain ps ss where "ys = ps @ xs @ ss" unfolding sublist_def by blast
  then have "map f ys = map f ps @ map f xs @ map f ss" by simp
  then show ?thesis unfolding sublist_def by blast
qed

lemma group_flag_lower: "sublist ''group'' (map lower_char ''<GROUP>'')"
  by (simp add: str_contains_sublist [symmetric] lower_char_def ascii_lowercase_def
      ascii_uppercase_def)

lemma group_record_lower: "group_record L \<Longrightarrow> str_contains ''group'' (str_lower L)"
proof -
  assume "group_record L"
  then have "sublist ''<GROUP>'' L"
    by (simp only: group_record_def str_contains_sublist)
  then have "sublist (map lower_char ''<GROUP>'') (map lower_char L)"
    by (rule sublist_map_both)
  with group_flag_lower have "sublist ''group'' (map lower_char L)"
    by (rule sublist_order.order.trans)
  then show ?thesis by (simp only: str_contains_sublist str_lower_def)
qed

lemma names_by_agree:
  assumes "\<forall>L\<in>set (map str_strip ls).
      str_contains ''<00>'' L \<and> str_contains ''group'' (str_lower L) \<longrightarrow> group_record L"
  shows "names_by line_164 ls = names_by workstation_record ls"
proof -
  have "line_164 L = workstation_record L" if "L \<in> set (map str_strip ls)" for L
    using assms that group_record_lower [of L]
    unfolding line_164_def workstation_record_def by blast
  then have "filter line_164 (map str_strip ls) = filter workstation_record (map str_strip ls)"
    by (intro filter_cong) simp_all
  then show ?thesis by (simp only: names_by_def)
qed

lemma resolve_hostname_dns:
  assumes "fst (os_gethostbyaddr os ip (world s)) = Inr h"
  shows "fst (resolve_hostname os ip s) = Inr h"
proof -
  obtain w where "os_gethostbyaddr os ip (world s) = (Inr h, w)"
    using assms by (cases "os_gethostbyaddr os ip (world s)") simp
  then show ?thesis by (simp add: resolve_hostname_def)
qed

lemma resolve_hostname_netbios:
  assumes "os_gethostbyaddr os ip (world s) = (Inl e, w)"
    and "fst (os_nmblookup os ip w) = Inr out"
  shows "fst (resolve_hostname os ip s) =
    Inr (case names_by line_164 (str_splitlines out) of [] \<Rightarrow> ''-'' | n # _ \<Rightarrow> n)"
proof -
  obtain w' where "os_nmblookup os ip w = (Inr out, w')"
    using assms(2) by (cases "os_nmblookup os ip w") simp
  with assms(1) show ?thesis
    by (simp add: resolve_hostname_def first_name_names split: list.splits)
qed

lemma resolve_hostname_placeholder:
  assumes "os_gethostbyaddr os ip (world s) = (Inl e, w)"
    and "fst (os_nmblookup os ip w) = Inl e'"
  shows "fst (resolve_hostname os ip s) = Inr ''-''"
proof -
  obtain w' where "os_nmblookup os ip w = (Inl e', w')"
    using assms(2) by (cases "os_nmblookup os ip w") simp
  with assms(1) show ?thesis
    by (simp add: resolve_hostname_def)
qed

text \<open>
  C9, as the code has it. \<^verbatim>\<open>resolve_hostname\<close> returns the resolver's name when
  the reverse lookup succeeds. Otherwise it asks NetBIOS. When \<open>group\<close>, in any
  letter case, occurs on no \<open><00>\<close> line other than a group record, it returns the
  first usable name: the first word of the first \<open><00>\<close> line that is not a group
  record and whose first word is neither empty nor \<open>name_query\<close>; with no such
  line, or when the query fails, it returns \<open>-\<close>. It never raises, and its result
  is not empty unless the resolver itself hands back an empty name.
\<close>

theorem resolve_hostname_order:
  "(fst (os_gethostbyaddr os ip (world s)) = Inr h \<longrightarrow> fst (resolve_hostname os ip s) = Inr h)
   \<and> (os_gethostbyaddr os ip (world s) = (Inl e, w) \<and> fst (os_nmblookup os ip w) = Inr out
        \<and> (\<forall>L\<in>set (map str_strip (str_splitlines out)).
              str_contains ''<00>'' L \<and> str_contains ''group'' (str_lower L) \<longrightarrow> group_record L)
        \<longrightarrow> fst (resolve_hostname os ip s) =
              Inr (case netbios_names out of [] \<Rightarrow> ''-'' | n # _ \<Rightarrow> n))
   \<and> (os_gethostbyaddr os ip (world s) = (Inl e, w) \<and> fst (os_nmblookup os ip w) = Inl e' \<longrightarrow>
        fst (resolve_hostname os ip s) = Inr ''-'')
   \<and> (\<exists>name. fst (resolve_hostname os ip s) = Inr name
        \<and> (fst (os_gethostbyaddr os ip (world s)) \<noteq> Inr [] \<longrightarrow> name \<noteq> []))"
proof (intro conjI impI)
  assume "fst (os_gethostbyaddr os ip (world s)) = Inr h"
  then show "fst (resolve_hostname os ip s) = Inr h" by (rule resolve_hostname_dns)
next
  assume a: "os_gethostbyaddr os ip (world s) = (Inl e, w) \<and> fst (os_nmblookup os ip w) = Inr out
        \<and> (\<forall>L\<in>set (map str_strip (str_splitlines out)).
              str_contains ''<00>'' L \<and> str_contains ''group'' (str_lower L) \<longrightarrow> group_record L)"
  then have "names_by line_164 (str_splitlines out) = netbios_names out"
    unfolding netbios_names_def by (intro names_by_agree) blast
  moreover from a have "fst (resolve_hostname os ip s) =
      Inr (case names_by line_164 (str_splitlines out) of [] \<Rightarrow> ''-'' | n # _ \<Rightarrow> n)"
    using resolve_hostname_netbios [of os ip s e w out] by blast
  ultimately show "fst (resolve_hostname os ip s) =
      Inr (case netbios_names out of [] \<Rightarrow> ''-'' | n # _ \<Rightarrow> n)"
    by simp
next
  assume "os_gethostbyaddr os ip (world s) = (Inl e, w) \<and> fst (os_nmblookup os ip w) = Inl e'"
  then show "fst (resolve_hostname os ip s) = Inr ''-''"
    using resolve_hostname_placeholder [of os ip s e w e'] by blast
next
  obtain d w1 where dns: "os_gethostbyaddr os ip (world s) = (d, w1)"
    by (cases "os_gethostbyaddr os ip (world s)")
  show "\<exists>name. fst (resolve_hostname os ip s) = Inr name
        \<and> (fst (os_gethostbyaddr os ip (world s)) \<noteq> Inr [] \<longrightarrow> name \<noteq> [])"
  proof (cases d)
    case (Inr h)
    with dns have "fst (resolve_hostname os ip s) = Inr h"
      using resolve_hostname_dns [of os ip s h] by simp
    with dns Inr show ?thesis by simp
  next
    case (Inl e1)
    obtain n w2 where nmb: "os_nmblookup os ip w1 = (n, w2)" by (cases "os_nmblookup os ip w1")
    show ?thesis
    proof (cases n)
      case (Inl e2)
      with dns \<open>d = Inl e1\<close> nmb have "fst (resolve_hostname os ip s) = Inr ''-''"
        using resolve_hostname_placeholder [of os ip s e1 w1 e2] by simp
      then show ?thesis by simp
    next
      case (Inr out1)
      with dns \<open>d = Inl e1\<close> nmb have "fst (resolve_hostname os ip s) =
          Inr (case names_by line_164 (str_splitlines out1) of [] \<Rightarrow> ''-'' | n # _ \<Rightarrow> n)"
        using resolve_hostname_netbios [of os ip s e1 w1 out1] by simp
      then show ?thesis using first_of_names_nonempty [of line_164 "str_splitlines out1"] by simp
    qed
  qed
qed

lemmas line_eval = line_164_def workstation_record_def group_record_def usable_name_def
  str_strip_def str_split_def is_space_def str_lower_def lower_char_def ascii_lowercase_def
  ascii_uppercase_def

lemma grouper_dns: "os_gethostbyaddr os_grouper ''192.168.1.21'' (world proc0) = (Inl HError, 1)"
  by (simp add: os_grouper_def os_quiet_def proc0_def)

lemma grouper_nmb: "fst (os_nmblookup os_grouper ''192.168.1.21'' 1) = Inr nmb_grouper"
  by (simp add: os_grouper_def os_quiet_def)

lemma grouper_lines:
  "str_splitlines nmb_grouper =
     [''Looking up status of 192.168.1.21'',
      CHR 0x09 # ''GROUPER-PC      <00> -         B <ACTIVE> '',
      CHR 0x09 # ''WORKGROUP       <00> - <GROUP> B <ACTIVE> '']"
  by (simp add: nmb_grouper_def nmb_lines_def str_splitlines_def is_linebreak_def)

lemma grouper_code_names: "names_by line_164 (str_splitlines nmb_grouper) = []"
  unfolding grouper_lines by (simp add: names_by_def line_eval)

lemma grouper_names: "netbios_names nmb_grouper = [''GROUPER-PC'']"
  unfolding netbios_names_def grouper_lines by (simp add: names_by_def line_eval)

lemma grouper_run: "fst (resolve_hostname os_grouper ''192.168.1.21'' proc0) = Inr ''-''"
  using resolve_hostname_netbios [OF grouper_dns grouper_nmb] grouper_code_names by simp

lemma root_pointer_run: "fst (resolve_hostname os_root_pointer ''192.168.1.20'' proc0) = Inr []"
  by (simp add: resolve_hostname_def os_root_pointer_def os_quiet_def proc0_def)

text \<open>
  C9, as stated, fails in two places. The resolver's name is returned unchecked, so an
  empty name of the resolver is the result. And line 164 looks for \<open>group\<close>
  anywhere on the line: the unique record of a machine called \<open>GROUPER-PC\<close> is
  passed over as if it were a group record, and the result is \<open>-\<close> although the
  response offers that name.
\<close>

theorem resolve_hostname_misses:
  "fst (resolve_hostname os_root_pointer ''192.168.1.20'' proc0) = Inr []
   \<and> fst (resolve_hostname os_grouper ''192.168.1.21'' proc0) = Inr ''-''
   \<and> netbios_names nmb_grouper = [''GROUPER-PC'']"
  by (rule conjI [OF root_pointer_run conjI [OF grouper_run grouper_names]])

lemma desktop_dns: "os_gethostbyaddr os_desktop ''192.168.1.20'' (world proc0) = (Inl HError, 1)"
  by (simp add: os_desktop_def os_quiet_def proc0_def)

lemma desktop_nmb: "fst (os_nmblookup os_desktop ''192.168.1.20'' 1) = Inr nmb_desktop"
  by (simp add: os_desktop_def os_quiet_def)

lemma desktop_lines:
  "str_splitlines nmb_desktop =
     [''Looking up status of 192.168.1.20'',
      CHR 0x09 # ''WORKGROUP       <00> - <GROUP> B <ACTIVE> '',
      CHR 0x09 # ''DESKTOP-7       <00> -         B <ACTIVE> '',
      CHR 0x09 # ''DESKTOP-7       <20> -         B <ACTIVE> '']"
  by (simp add: nmb_desktop_def nmb_lines_def str_splitlines_def is_linebreak_def)

lemma desktop_names: "netbios_names nmb_desktop = [''DESKTOP-7'']"
  unfolding netbios_names_def desktop_lines by (simp add: names_by_def line_eval)

lemma desktop_lines_plain:
  "\<forall>L\<in>set (map str_strip (str_splitlines nmb_desktop)).
      str_contains ''<00>'' L \<and> str_contains ''group'' (str_lower L) \<longrightarrow> group_record L"
  unfolding desktop_lines by (simp add: line_eval)

theorem resolve_hostname_order_witness:
  "fst (resolve_hostname os_desktop ''192.168.1.20'' proc0) = Inr ''DESKTOP-7''"
proof -
  note run = resolve_hostname_order [of os_desktop "''192.168.1.20''" proc0 _ HError 1 nmb_desktop,
      THEN conjunct2, THEN conjunct1, THEN mp,
      OF conjI [OF desktop_dns conjI [OF desktop_nmb desktop_lines_plain]]]
  then show ?thesis unfolding desktop_names by simp
qed

section \<open>Liveness verdict\<close>









































end
